theory Spec2Isabelle
  imports Main "HOL-Library.Multiset" "HOL-Library.Char_ord" "HOL-Library.List_Lexorder"
    "HOL-Library.Sublist"
begin

section \<open>Records and filter options (internal/repo/repo.go)\<close>

text \<open>
  A \<^verbatim>\<open>time.Time\<close> is modelled as a number of seconds on the UTC time line;
  \<^verbatim>\<open>Before\<close> and \<^verbatim>\<open>After\<close> are the strict orders. Go's \<^verbatim>\<open>int\<close> fields are
  only compared, never computed with, so they are unbounded integers here.
\<close>

type_synonym time = int

record Repo =
  Name :: string
  FullName :: string
  Description :: string
  URL :: string
  SSHURL :: string
  IsPrivate :: bool
  IsArchived :: bool
  IsFork :: bool
  IsTemplate :: bool
  StargazerCount :: int
  ForkCount :: int
  OpenIssuesCount :: int
  PrimaryLanguage :: string
  CreatedAt :: time
  UpdatedAt :: time
  PushedAt :: time
  DiskUsage :: int
  Selected :: bool

datatype SortField =
  SortByName | SortByUpdated | SortByCreated | SortByStars | SortByForks | SortBySize

record FilterOptions =
  ShowArchived :: bool
  ShowPrivate :: bool
  ShowPublic :: bool
  ShowForks :: bool
  Language :: string
  MinStars :: int
  MaxStars :: int
  InactiveForDays :: int
  SearchQuery :: string
  SortBy :: SortField
  SortDesc :: bool

definition DefaultFilterOptions :: FilterOptions where
  "DefaultFilterOptions =
     \<lparr> ShowArchived = False, ShowPrivate = True, ShowPublic = True, ShowForks = True,
       Language = [], MinStars = - 1, MaxStars = - 1, InactiveForDays = 0,
       SearchQuery = [], SortBy = SortByUpdated, SortDesc = True \<rparr>"

subsection \<open>The string helpers Filter calls\<close>

text \<open>
  Strings are byte lists. \<^verbatim>\<open>strings.ToLower\<close> and \<^verbatim>\<open>strings.EqualFold\<close> are
  modelled on the ASCII letters (Go also folds letters beyond ASCII; no property below
  depends on which letters are folded). \<^verbatim>\<open>strings.Contains\<close> is the search for a
  contiguous occurrence.
\<close>

definition lower_char :: "char \<Rightarrow> char" where
  "lower_char c =
     (let n = (of_char c :: nat) in if 65 \<le> n \<and> n \<le> 90 then char_of (n + 32) else c)"

definition ToLower :: "string \<Rightarrow> string" where
  "ToLower s = map lower_char s"

definition EqualFold :: "string \<Rightarrow> string \<Rightarrow> bool" where
  "EqualFold s t = (ToLower s = ToLower t)"

fun Contains :: "string \<Rightarrow> string \<Rightarrow> bool" where
  "Contains [] substr = (substr = [])"
| "Contains (c # cs) substr = (prefix substr (c # cs) \<or> Contains cs substr)"

subsection \<open>Filter\<close>

definition zero_time :: time where
  "zero_time = - 62135596800"

definition AddDays :: "time \<Rightarrow> int \<Rightarrow> time" where
  "AddDays t d = t + d * 86400"

text \<open>
  The body of the loop of \<^verbatim>\<open>Filter\<close>, one \<^verbatim>\<open>continue\<close> per test, in the order of
  the source: \<open>skipped cutoff opts r\<close> holds when the record is not appended.
\<close>

definition skipped :: "time \<Rightarrow> FilterOptions \<Rightarrow> Repo \<Rightarrow> bool" where
  "skipped cutoff opts r =
     (if IsArchived r \<and> \<not> ShowArchived opts then True
      else if IsPrivate r \<and> \<not> ShowPrivate opts then True
      else if \<not> IsPrivate r \<and> \<not> ShowPublic opts then True
      else if IsFork r \<and> \<not> ShowForks opts then True
      else if Language opts \<noteq> [] \<and> \<not> EqualFold (PrimaryLanguage r) (Language opts) then True
      else if MinStars opts \<ge> 0 \<and> StargazerCount r < MinStars opts then True
      else if MaxStars opts \<ge> 0 \<and> StargazerCount r > MaxStars opts then True
      else if InactiveForDays opts > 0 \<and> PushedAt r > cutoff then True
      else if SearchQuery opts \<noteq> [] \<and>
              (let query = ToLower (SearchQuery opts);
                   name = ToLower (Name r);
                   desc = ToLower (Description r)
               in \<not> Contains name query \<and> \<not> Contains desc query) then True
      else False)"

fun Filter_loop :: "time \<Rightarrow> FilterOptions \<Rightarrow> Repo list \<Rightarrow> Repo list \<Rightarrow> Repo list" where
  "Filter_loop cutoff opts [] result = result"
| "Filter_loop cutoff opts (r # rs) result =
     (if skipped cutoff opts r then Filter_loop cutoff opts rs result
      else Filter_loop cutoff opts rs (result @ [r]))"

text \<open>
  \<open>t\<close> is the value \<^verbatim>\<open>time.Now()\<close> returns in this call; \<open>cutoff_of\<close> is the
  variable \<^verbatim>\<open>cutoff\<close>, the zero time unless the inactivity filter is on.
\<close>

definition cutoff_of :: "time \<Rightarrow> FilterOptions \<Rightarrow> time" where
  "cutoff_of t opts =
     (if InactiveForDays opts > 0 then AddDays t (- InactiveForDays opts) else zero_time)"

definition Filter :: "time \<Rightarrow> Repo list \<Rightarrow> FilterOptions \<Rightarrow> Repo list" where
  "Filter t repos opts = Filter_loop (cutoff_of t opts) opts repos []"

subsection \<open>Sort\<close>

text \<open>
  \<^verbatim>\<open>Sort\<close> is a bubble sort on the slice: \<open>n - 1\<close> passes, pass \<open>i\<close> comparing the
  neighbours at \<open>j\<close> and \<open>j + 1\<close> for \<open>j < n - i - 1\<close>. \<open>swap_test\<close> is the
  \<^verbatim>\<open>switch\<close> followed by the inversion for \<^verbatim>\<open>desc\<close>.
\<close>

definition swap_test :: "SortField \<Rightarrow> bool \<Rightarrow> Repo \<Rightarrow> Repo \<Rightarrow> bool" where
  "swap_test sortBy desc a b =
     (let swap = (case sortBy of
                    SortByName \<Rightarrow> Name a > Name b
                  | SortByUpdated \<Rightarrow> UpdatedAt a < UpdatedAt b
                  | SortByCreated \<Rightarrow> CreatedAt a < CreatedAt b
                  | SortByStars \<Rightarrow> StargazerCount a < StargazerCount b
                  | SortByForks \<Rightarrow> ForkCount a < ForkCount b
                  | SortBySize \<Rightarrow> DiskUsage a < DiskUsage b)
      in if desc then \<not> swap else swap)"

definition Sort_step :: "SortField \<Rightarrow> bool \<Rightarrow> nat \<Rightarrow> Repo list \<Rightarrow> Repo list" where
  "Sort_step sortBy desc j repos =
     (if swap_test sortBy desc (repos ! j) (repos ! (j + 1))
      then repos[j := repos ! (j + 1), j + 1 := repos ! j]
      else repos)"

definition Sort_pass :: "SortField \<Rightarrow> bool \<Rightarrow> nat \<Rightarrow> Repo list \<Rightarrow> Repo list" where
  "Sort_pass sortBy desc i repos =
     fold (Sort_step sortBy desc) [0 ..< length repos - i - 1] repos"

definition Sort :: "Repo list \<Rightarrow> SortField \<Rightarrow> bool \<Rightarrow> Repo list" where
  "Sort repos sortBy desc =
     fold (Sort_pass sortBy desc) [0 ..< length repos - 1] repos"

section \<open>The application model (internal/tui/model.go)\<close>

datatype View =
  ViewList | ViewFilter | ViewDetail | ViewConfirmArchive | ViewConfirmDelete | ViewHelp

text \<open>
  Of the text input only the focus and the text are read by the model. Of the client
  pointer only whether it is \<^verbatim>\<open>nil\<close> is read. An \<^verbatim>\<open>error\<close> is its text. The
  spinner's own state is library state and is left out; so is the browser process that
  the key \<open>o\<close> starts, which never reaches the model.
\<close>

record textinput =
  Focused :: bool
  Value :: string

record Model =
  repos :: "Repo list"
  filteredRepos :: "Repo list"
  client :: bool
  username :: string
  view :: View
  cursor :: int
  offset :: int
  loading :: bool
  err :: "string option"
  message :: string
  messageIsError :: bool
  filterOpts :: FilterOptions
  searchInput :: textinput
  width :: int
  height :: int
  showDetail :: bool
  selectedCount :: int

text \<open>
  The messages \<^verbatim>\<open>Update\<close> switches on. The slice of \<open>backgroundRefreshMsg\<close> is
  tested against \<^verbatim>\<open>nil\<close>, so it is an option: \<open>None\<close> is the \<^verbatim>\<open>nil\<close> slice
  (what \<^verbatim>\<open>ListRepos\<close> returns when it appended no record). \<open>otherMsg\<close> is any
  message type without a case.
\<close>

datatype Msg =
    KeyMsg string
  | WindowSizeMsg int int
  | spinnerTickMsg
  | reposLoadedMsg "Repo list" string
  | cacheLoadedMsg "Repo list" string bool
  | backgroundRefreshMsg "Repo list option"
  | errorMsg string
  | archiveCompleteMsg string
  | deleteCompleteMsg string
  | actionMsg string
  | otherMsg

text \<open>
  The commands a handler returns. \<open>archiveCmd c name\<close> and \<open>deleteCmd c name\<close> are
  the closures built in the confirmation handlers: they capture \<open>name\<close> and read
  \<^verbatim>\<open>m.client != nil\<close> (\<open>c\<close>).
\<close>

datatype Cmd =
    Quit
  | Blink
  | spinnerCmd
  | inputCmd string
  | refreshReposCmd string
  | forceRefreshReposCmd
  | actionCmd string
  | archiveCmd bool string
  | deleteCmd bool string

text \<open>
  What one call of \<^verbatim>\<open>Update\<close> reads from outside the model: the clock, and the
  text input's own \<^verbatim>\<open>Update\<close> (library code), a function of the key and the input.
\<close>

record Env =
  now :: time
  inputUpdate :: "string \<Rightarrow> textinput \<Rightarrow> textinput"

definition NewModel :: Model where
  "NewModel =
     \<lparr> repos = [], filteredRepos = [], client = False, username = [], view = ViewList,
       cursor = 0, offset = 0, loading = True, err = None, message = [],
       messageIsError = False, filterOpts = DefaultFilterOptions,
       searchInput = \<lparr> Focused = False, Value = [] \<rparr>,
       width = 80, height = 24, showDetail = False, selectedCount = 0 \<rparr>"

subsection \<open>Helper methods\<close>

definition visibleRows :: "Model \<Rightarrow> int" where
  "visibleRows m = height m - 10"

definition adjustOffset :: "Model \<Rightarrow> Model" where
  "adjustOffset m =
     (let visible = visibleRows m;
          m1 = (if cursor m < offset m then m\<lparr>offset := cursor m\<rparr> else m)
      in if cursor m1 \<ge> offset m1 + visible then m1\<lparr>offset := cursor m1 - visible + 1\<rparr>
         else m1)"

definition applyFilters :: "time \<Rightarrow> Model \<Rightarrow> Model" where
  "applyFilters t m =
     (let m1 = m\<lparr>filteredRepos :=
                   Sort (Filter t (repos m) (filterOpts m))
                        (SortBy (filterOpts m)) (SortDesc (filterOpts m))\<rparr>;
          m2 = (if cursor m1 \<ge> int (length (filteredRepos m1))
                then m1\<lparr>cursor := int (length (filteredRepos m1)) - 1\<rparr> else m1);
          m3 = (if cursor m2 < 0 then m2\<lparr>cursor := 0\<rparr> else m2)
      in adjustOffset m3)"

definition updateSelectedCount :: "Model \<Rightarrow> Model" where
  "updateSelectedCount m =
     m\<lparr>selectedCount := fold (\<lambda>r count. if Selected r then count + 1 else count) (repos m) 0\<rparr>"

text \<open>The search loop of \<^verbatim>\<open>getActualIndex\<close>: the first index, counted from \<open>i\<close>, of a
  record with that name, or \<open>-1\<close>.\<close>

fun find_name :: "string \<Rightarrow> Repo list \<Rightarrow> int \<Rightarrow> int" where
  "find_name name [] i = - 1"
| "find_name name (r # rs) i = (if FullName r = name then i else find_name name rs (i + 1))"

definition getActualIndex :: "Model \<Rightarrow> int \<Rightarrow> int" where
  "getActualIndex m filteredIdx =
     (if filteredIdx < 0 \<or> filteredIdx \<ge> int (length (filteredRepos m)) then - 1
      else find_name (FullName (filteredRepos m ! nat filteredIdx)) (repos m) 0)"

text \<open>\<^verbatim>\<open>(SortBy + 1) % 6\<close> on the six constants, in their \<^verbatim>\<open>iota\<close> order.\<close>

fun next_field :: "SortField \<Rightarrow> SortField" where
  "next_field SortByName = SortByUpdated"
| "next_field SortByUpdated = SortByCreated"
| "next_field SortByCreated = SortByStars"
| "next_field SortByStars = SortByForks"
| "next_field SortByForks = SortBySize"
| "next_field SortBySize = SortByName"

definition cycleSortField :: "Model \<Rightarrow> Model" where
  "cycleSortField m = m\<lparr>filterOpts := (filterOpts m)\<lparr>SortBy := next_field (SortBy (filterOpts m))\<rparr>\<rparr>"

fun cycle_loop :: "int list \<Rightarrow> nat \<Rightarrow> int \<Rightarrow> int list \<Rightarrow> int" where
  "cycle_loop options i current [] = 0"
| "cycle_loop options i current (opt # rest) =
     (if opt = current then options ! ((i + 1) mod length options)
      else cycle_loop options (i + 1) current rest)"

definition cycleInactiveDays :: "int \<Rightarrow> int" where
  "cycleInactiveDays current =
     (let options = [0, 30, 90, 180, 365, 730] in cycle_loop options 0 current options)"

text \<open>The decimal digits \<^verbatim>\<open>%d\<close> prints for a length.\<close>

fun itoa :: "nat \<Rightarrow> string" where
  "itoa n = (if n < 10 then [char_of (48 + n)] else itoa (n div 10) @ [char_of (48 + n mod 10)])"

declare itoa.simps [simp del]

text \<open>The assignment \<^verbatim>\<open>rs[i].Selected = b\<close>.\<close>

definition set_selected :: "bool \<Rightarrow> Repo list \<Rightarrow> nat \<Rightarrow> Repo list" where
  "set_selected b rs i = rs[i := (rs ! i)\<lparr>Selected := b\<rparr>]"

text \<open>\<open>toggle f t m\<close>: assign \<open>f\<close> of the options to \<^verbatim>\<open>m.filterOpts\<close>, then
  \<^verbatim>\<open>m.applyFilters()\<close>.\<close>

definition toggle :: "(FilterOptions \<Rightarrow> FilterOptions) \<Rightarrow> time \<Rightarrow> Model \<Rightarrow> Model" where
  "toggle f t m = applyFilters t (m\<lparr>filterOpts := f (filterOpts m)\<rparr>)"

subsection \<open>Key handlers\<close>

text \<open>
  A handler returns the new model and the commands it schedules; \<open>None\<close> is a run-time
  panic (an index out of range). A key is the text \<^verbatim>\<open>msg.String()\<close> gives.
\<close>

type_synonym result = "(Model \<times> Cmd list) option"

definition selectVisible_step :: "nat \<Rightarrow> Model \<Rightarrow> Model" where
  "selectVisible_step i m =
     (if \<not> IsArchived (filteredRepos m ! i) then
        (let m1 = m\<lparr>filteredRepos := set_selected True (filteredRepos m) i\<rparr>;
             idx = getActualIndex m1 (int i)
         in if idx \<ge> 0 then m1\<lparr>repos := set_selected True (repos m1) (nat idx)\<rparr> else m1)
      else m)"

definition deselectAll :: "Repo list \<Rightarrow> Repo list" where
  "deselectAll rs = fold (\<lambda>i xs. set_selected False xs i) [0 ..< length rs] rs"

definition selectCursor :: "View \<Rightarrow> Model \<Rightarrow> Model" where
  "selectCursor v m =
     (let idx = getActualIndex m (cursor m)
      in if idx \<ge> 0
         then (updateSelectedCount (m\<lparr>repos := set_selected True (repos m) (nat idx)\<rparr>))\<lparr>view := v\<rparr>
         else m)"

definition handleListKeys :: "Env \<Rightarrow> Model \<Rightarrow> string \<Rightarrow> result" where
  "handleListKeys env m key =
     (if Focused (searchInput m) then
        (if key = ''enter'' \<or> key = ''esc'' then
           (let m1 = m\<lparr>searchInput := (searchInput m)\<lparr>Focused := False\<rparr>\<rparr>
            in Some (toggle (\<lambda>opts. opts\<lparr>SearchQuery := Value (searchInput m1)\<rparr>) (now env) m1, []))
         else
           (let m1 = m\<lparr>searchInput := inputUpdate env key (searchInput m)\<rparr>
            in Some (toggle (\<lambda>opts. opts\<lparr>SearchQuery := Value (searchInput m1)\<rparr>) (now env) m1,
                     [inputCmd key])))
      else if key = ''up'' \<or> key = ''k'' then
        Some (if cursor m > 0 then adjustOffset (m\<lparr>cursor := cursor m - 1\<rparr>) else m, [])
      else if key = ''down'' \<or> key = ''j'' then
        Some (if cursor m < int (length (filteredRepos m)) - 1
              then adjustOffset (m\<lparr>cursor := cursor m + 1\<rparr>) else m, [])
      else if key = ''pgup'' then
        (let m1 = m\<lparr>cursor := cursor m - visibleRows m\<rparr>;
             m2 = (if cursor m1 < 0 then m1\<lparr>cursor := 0\<rparr> else m1)
         in Some (adjustOffset m2, []))
      else if key = ''pgdown'' then
        (let m1 = m\<lparr>cursor := cursor m + visibleRows m\<rparr>;
             m2 = (if cursor m1 \<ge> int (length (filteredRepos m1))
                   then m1\<lparr>cursor := int (length (filteredRepos m1)) - 1\<rparr> else m1);
             m3 = (if cursor m2 < 0 then m2\<lparr>cursor := 0\<rparr> else m2)
         in Some (adjustOffset m3, []))
      else if key = ''home'' \<or> key = ''g'' then
        Some (m\<lparr>cursor := 0, offset := 0\<rparr>, [])
      else if key = ''end'' \<or> key = ''G'' then
        (let m1 = m\<lparr>cursor := int (length (filteredRepos m)) - 1\<rparr>;
             m2 = (if cursor m1 < 0 then m1\<lparr>cursor := 0\<rparr> else m1)
         in Some (adjustOffset m2, []))
      else if key = ''/'' then
        Some (m\<lparr>searchInput := (searchInput m)\<lparr>Focused := True\<rparr>\<rparr>, [Blink])
      else if key = ''f'' then
        Some (m\<lparr>view := ViewFilter\<rparr>, [])
      else if key = ''enter'' \<or> key = ''l'' then
        Some (if length (filteredRepos m) > 0 then m\<lparr>view := ViewDetail\<rparr> else m, [])
      else if key = '' '' \<or> key = ''x'' then
        (if length (filteredRepos m) > 0 then
           (let idx = getActualIndex m (cursor m)
            in if idx \<ge> 0 then
                 (let rs = set_selected (\<not> Selected (repos m ! nat idx)) (repos m) (nat idx);
                      fs = set_selected (Selected (rs ! nat idx)) (filteredRepos m) (nat (cursor m))
                  in Some (updateSelectedCount (m\<lparr>repos := rs, filteredRepos := fs\<rparr>), []))
               else Some (m, []))
         else Some (m, []))
      else if key = ''a'' then
        (if length (filteredRepos m) > 0 then
           (if selectedCount m > 0 then Some (m\<lparr>view := ViewConfirmArchive\<rparr>, [])
            else Some (selectCursor ViewConfirmArchive m, []))
         else Some (m, []))
      else if key = ''d'' then
        (if length (filteredRepos m) > 0 then
           (if selectedCount m > 0 then Some (m\<lparr>view := ViewConfirmDelete\<rparr>, [])
            else Some (selectCursor ViewConfirmDelete m, []))
         else Some (m, []))
      else if key = ''A'' then
        Some (updateSelectedCount
                (fold selectVisible_step [0 ..< length (filteredRepos m)] m), [])
      else if key = ''D'' then
        Some (m\<lparr>repos := deselectAll (repos m),
                 filteredRepos := deselectAll (filteredRepos m),
                 selectedCount := 0\<rparr>, [])
      else if key = ''o'' then
        (if length (filteredRepos m) > 0 \<and> client m then
           (if 0 \<le> cursor m \<and> cursor m < int (length (filteredRepos m))
            then Some (m, [actionCmd ''Opening in browser...''])
            else None)
         else Some (m, []))
      else if key = ''s'' then
        Some (applyFilters (now env) (cycleSortField m), [])
      else if key = ''S'' then
        Some (toggle (\<lambda>opts. opts\<lparr>SortDesc := \<not> SortDesc opts\<rparr>) (now env) m, [])
      else if key = ''r'' then
        Some (m\<lparr>loading := True\<rparr>, [forceRefreshReposCmd])
      else if key = ''?'' then
        Some (m\<lparr>view := ViewHelp\<rparr>, [])
      else if key = ''1'' then
        Some (toggle (\<lambda>opts. opts\<lparr>ShowArchived := \<not> ShowArchived opts\<rparr>) (now env) m, [])
      else if key = ''2'' then
        Some (toggle (\<lambda>opts. opts\<lparr>ShowPrivate := \<not> ShowPrivate opts\<rparr>) (now env) m, [])
      else if key = ''3'' then
        Some (toggle (\<lambda>opts. opts\<lparr>ShowPublic := \<not> ShowPublic opts\<rparr>) (now env) m, [])
      else if key = ''4'' then
        Some (toggle (\<lambda>opts. opts\<lparr>ShowForks := \<not> ShowForks opts\<rparr>) (now env) m, [])
      else Some (m, []))"

definition handleFilterKeys :: "Env \<Rightarrow> Model \<Rightarrow> string \<Rightarrow> result" where
  "handleFilterKeys env m key =
     (if key = ''esc'' \<or> key = ''q'' \<or> key = ''f'' then
        Some (m\<lparr>view := ViewList\<rparr>, [])
      else if key = ''1'' then
        Some (toggle (\<lambda>opts. opts\<lparr>ShowArchived := \<not> ShowArchived opts\<rparr>) (now env) m, [])
      else if key = ''2'' then
        Some (toggle (\<lambda>opts. opts\<lparr>ShowPrivate := \<not> ShowPrivate opts\<rparr>) (now env) m, [])
      else if key = ''3'' then
        Some (toggle (\<lambda>opts. opts\<lparr>ShowPublic := \<not> ShowPublic opts\<rparr>) (now env) m, [])
      else if key = ''4'' then
        Some (toggle (\<lambda>opts. opts\<lparr>ShowForks := \<not> ShowForks opts\<rparr>) (now env) m, [])
      else if key = ''5'' then
        Some (toggle (\<lambda>opts. opts\<lparr>InactiveForDays := cycleInactiveDays (InactiveForDays opts)\<rparr>)
                (now env) m, [])
      else if key = ''s'' then
        Some (applyFilters (now env) (cycleSortField m), [])
      else if key = ''S'' then
        Some (toggle (\<lambda>opts. opts\<lparr>SortDesc := \<not> SortDesc opts\<rparr>) (now env) m, [])
      else if key = ''r'' then
        Some (applyFilters (now env)
                (m\<lparr>filterOpts := DefaultFilterOptions,
                   searchInput := (searchInput m)\<lparr>Value := []\<rparr>\<rparr>), [])
      else Some (m, []))"

definition handleDetailKeys :: "Env \<Rightarrow> Model \<Rightarrow> string \<Rightarrow> result" where
  "handleDetailKeys env m key =
     (if key = ''esc'' \<or> key = ''q'' \<or> key = ''h'' then
        Some (m\<lparr>view := ViewList\<rparr>, [])
      else if key = ''o'' then
        (if client m \<and> length (filteredRepos m) > 0 then
           (if 0 \<le> cursor m \<and> cursor m < int (length (filteredRepos m))
            then Some (m, []) else None)
         else Some (m, []))
      else if key = ''a'' then
        (if length (filteredRepos m) > 0 then Some (selectCursor ViewConfirmArchive m, [])
         else Some (m, []))
      else Some (m, []))"

fun archive_loop :: "bool \<Rightarrow> Repo list \<Rightarrow> Cmd list \<Rightarrow> Cmd list" where
  "archive_loop c [] cmds = cmds"
| "archive_loop c (r # rs) cmds =
     (if Selected r \<and> \<not> IsArchived r
      then archive_loop c rs (cmds @ [archiveCmd c (FullName r)])
      else archive_loop c rs cmds)"

fun delete_loop :: "bool \<Rightarrow> Repo list \<Rightarrow> Cmd list \<Rightarrow> Cmd list" where
  "delete_loop c [] cmds = cmds"
| "delete_loop c (r # rs) cmds =
     (if Selected r
      then delete_loop c rs (cmds @ [deleteCmd c (FullName r)])
      else delete_loop c rs cmds)"

definition handleConfirmArchiveKeys :: "Env \<Rightarrow> Model \<Rightarrow> string \<Rightarrow> result" where
  "handleConfirmArchiveKeys env m key =
     (if key = ''y'' \<or> key = ''Y'' then
        Some (m\<lparr>view := ViewList\<rparr>, archive_loop (client m) (repos m) [])
      else if key = ''n'' \<or> key = ''N'' \<or> key = ''esc'' \<or> key = ''q'' then
        Some (m\<lparr>repos := deselectAll (repos m), selectedCount := 0, view := ViewList\<rparr>, [])
      else Some (m, []))"

definition handleConfirmDeleteKeys :: "Env \<Rightarrow> Model \<Rightarrow> string \<Rightarrow> result" where
  "handleConfirmDeleteKeys env m key =
     (if key = ''y'' \<or> key = ''Y'' then
        Some (m\<lparr>view := ViewList\<rparr>, delete_loop (client m) (repos m) [])
      else if key = ''n'' \<or> key = ''N'' \<or> key = ''esc'' \<or> key = ''q'' then
        Some (m\<lparr>repos := deselectAll (repos m), selectedCount := 0, view := ViewList\<rparr>, [])
      else Some (m, []))"

definition handleHelpKeys :: "Env \<Rightarrow> Model \<Rightarrow> string \<Rightarrow> result" where
  "handleHelpKeys env m key =
     (if key = ''esc'' \<or> key = ''q'' \<or> key = ''?'' then Some (m\<lparr>view := ViewList\<rparr>, [])
      else Some (m, []))"

definition handleKeyPress :: "Env \<Rightarrow> Model \<Rightarrow> string \<Rightarrow> result" where
  "handleKeyPress env m key =
     (if (key = ''ctrl+c'' \<or> key = ''q'') \<and> view m = ViewList \<and> \<not> Focused (searchInput m)
      then Some (m, [Quit])
      else (case view m of
              ViewList \<Rightarrow> handleListKeys env m key
            | ViewFilter \<Rightarrow> handleFilterKeys env m key
            | ViewDetail \<Rightarrow> handleDetailKeys env m key
            | ViewConfirmArchive \<Rightarrow> handleConfirmArchiveKeys env m key
            | ViewConfirmDelete \<Rightarrow> handleConfirmDeleteKeys env m key
            | ViewHelp \<Rightarrow> handleHelpKeys env m key))"

subsection \<open>Folding messages: Update\<close>

fun mark_archived :: "string \<Rightarrow> Repo list \<Rightarrow> Repo list" where
  "mark_archived name [] = []"
| "mark_archived name (r # rs) =
     (if FullName r = name then r\<lparr>IsArchived := True, Selected := False\<rparr> # rs
      else r # mark_archived name rs)"

fun remove_named :: "string \<Rightarrow> Repo list \<Rightarrow> Repo list" where
  "remove_named name [] = []"
| "remove_named name (r # rs) =
     (if FullName r = name then rs else r # remove_named name rs)"

text \<open>The map \<^verbatim>\<open>selectedNames\<close>: a missing key reads as \<^verbatim>\<open>false\<close>.\<close>

definition selectedNames :: "Repo list \<Rightarrow> string \<Rightarrow> bool" where
  "selectedNames rs =
     fold (\<lambda>r names. if Selected r then names(FullName r := True) else names) rs (\<lambda>_. False)"

definition restore_selection :: "(string \<Rightarrow> bool) \<Rightarrow> Repo list \<Rightarrow> Repo list" where
  "restore_selection names rs =
     fold (\<lambda>i xs. if names (FullName (xs ! i)) then set_selected True xs i else xs)
       [0 ..< length rs] rs"

definition Update :: "Env \<Rightarrow> Model \<Rightarrow> Msg \<Rightarrow> result" where
  "Update env m msg =
     (case msg of
        KeyMsg key \<Rightarrow> handleKeyPress env m key
      | WindowSizeMsg w h \<Rightarrow> Some (m\<lparr>width := w, height := h\<rparr>, [])
      | spinnerTickMsg \<Rightarrow> Some (m, if loading m then [spinnerCmd] else [])
      | reposLoadedMsg rs u \<Rightarrow>
          (let m1 = applyFilters (now env)
                      (m\<lparr>loading := False, repos := rs, username := u, client := True\<rparr>)
           in Some (m1\<lparr>message := ''Loaded '' @ itoa (length (repos m1)) @ '' repositories''\<rparr>, []))
      | cacheLoadedMsg rs u fresh \<Rightarrow>
          (let m1 = applyFilters (now env)
                      (m\<lparr>loading := False, repos := rs, username := u, client := True\<rparr>)
           in if fresh
              then Some (m1\<lparr>message :=
                             ''Loaded '' @ itoa (length (repos m1)) @ '' repositories (cached)''\<rparr>, [])
              else Some (m1\<lparr>message :=
                             ''Loaded '' @ itoa (length (repos m1)) @ '' repositories (refreshing...)''\<rparr>,
                         [refreshReposCmd u]))
      | backgroundRefreshMsg slice \<Rightarrow>
          (case slice of
             None \<Rightarrow> Some (m, [])
           | Some rs \<Rightarrow>
               (let names = selectedNames (repos m);
                    m1 = applyFilters (now env) (m\<lparr>repos := restore_selection names rs\<rparr>)
                in Some (m1\<lparr>message :=
                               ''Refreshed '' @ itoa (length (repos m1)) @ '' repositories''\<rparr>, [])))
      | errorMsg e \<Rightarrow>
          Some (m\<lparr>loading := False, err := Some e, message := e, messageIsError := True\<rparr>, [])
      | archiveCompleteMsg name \<Rightarrow>
          (let m1 = m\<lparr>message := ''Archived: '' @ name, messageIsError := False\<rparr>
           in Some (applyFilters (now env) (m1\<lparr>repos := mark_archived name (repos m1)\<rparr>), []))
      | deleteCompleteMsg name \<Rightarrow>
          (let m1 = m\<lparr>message := ''Deleted: '' @ name, messageIsError := False\<rparr>
           in Some (applyFilters (now env) (m1\<lparr>repos := remove_named name (repos m1)\<rparr>), []))
      | actionMsg s \<Rightarrow> Some (m\<lparr>message := s, messageIsError := False\<rparr>, [])
      | otherMsg \<Rightarrow> Some (m, []))"

text \<open>Folding a sequence of messages, one clock reading and one call of Update each.\<close>

fun run :: "Env \<Rightarrow> Model \<Rightarrow> Msg list \<Rightarrow> Model option" where
  "run env m [] = Some m"
| "run env m (msg # msgs) =
     (case Update env m msg of None \<Rightarrow> None | Some (m', cmds) \<Rightarrow> run env m' msgs)"

subsection \<open>What View renders\<close>

text \<open>
  \<^verbatim>\<open>View\<close> picks the loading screen, the error screen or the screen of the active
  view; only that choice is modelled, not the text.
\<close>

datatype Screen = LoadingScreen | ErrorScreen string | ViewScreen View

definition View :: "Model \<Rightarrow> Screen" where
  "View m =
     (if loading m then LoadingScreen
      else (case err m of
              Some e \<Rightarrow> if length (repos m) = 0 then ErrorScreen e else ViewScreen (view m)
            | None \<Rightarrow> ViewScreen (view m)))"

subsection \<open>The operations behind the commands\<close>

text \<open>
  \<^verbatim>\<open>ListRepos\<close> (internal/gh/client.go) starts from the \<^verbatim>\<open>nil\<close> slice and appends
  one record per node; its struct literal names every field but \<^verbatim>\<open>Selected\<close>, which
  stays \<^verbatim>\<open>false\<close>. \<open>nodes\<close> are the nodes of all pages, as the records the literal
  copies them into.
\<close>

definition ListRepos_slice :: "Repo list \<Rightarrow> Repo list option" where
  "ListRepos_slice nodes =
     fold (\<lambda>n allRepos. Some ((case allRepos of None \<Rightarrow> [] | Some rs \<Rightarrow> rs) @
                               [n\<lparr>Selected := False\<rparr>])) nodes None"

definition slice_list :: "'a list option \<Rightarrow> 'a list" where
  "slice_list s = (case s of None \<Rightarrow> [] | Some xs \<Rightarrow> xs)"

text \<open>
  The outcome of a provider call is \<open>Inl\<close> its error or \<open>Inr\<close> its value.
  \<open>refreshRepos\<close> returns no message (\<open>None\<close>) on failure.
\<close>

definition refreshRepos :: "string + Repo list \<Rightarrow> Msg option" where
  "refreshRepos listed =
     (case listed of
        Inl e \<Rightarrow> None
      | Inr nodes \<Rightarrow> Some (backgroundRefreshMsg (ListRepos_slice nodes)))"

definition forceRefreshRepos :: "string + string \<Rightarrow> string + Repo list \<Rightarrow> Msg" where
  "forceRefreshRepos user listed =
     (case user of
        Inl e \<Rightarrow> errorMsg e
      | Inr name \<Rightarrow>
          (case listed of
             Inl e \<Rightarrow> errorMsg e
           | Inr nodes \<Rightarrow> reposLoadedMsg (slice_list (ListRepos_slice nodes)) name))"

definition archiveOp :: "(string \<Rightarrow> string option) \<Rightarrow> bool \<Rightarrow> string \<Rightarrow> Msg" where
  "archiveOp ArchiveRepo c name =
     (if c then (case ArchiveRepo name of Some e \<Rightarrow> errorMsg e | None \<Rightarrow> archiveCompleteMsg name)
      else archiveCompleteMsg name)"

definition deleteOp :: "(string \<Rightarrow> string option) \<Rightarrow> bool \<Rightarrow> string \<Rightarrow> Msg" where
  "deleteOp DeleteRepo c name =
     (if c then (case DeleteRepo name of Some e \<Rightarrow> errorMsg e | None \<Rightarrow> deleteCompleteMsg name)
      else deleteCompleteMsg name)"

subsection \<open>Sample data\<close>

definition sample :: "string \<Rightarrow> int \<Rightarrow> Repo" where
  "sample name stars =
     \<lparr> Name = name, FullName = ''me/'' @ name, Description = [], URL = [], SSHURL = [],
       IsPrivate = False, IsArchived = False, IsFork = False, IsTemplate = False,
       StargazerCount = stars, ForkCount = 0, OpenIssuesCount = 0, PrimaryLanguage = ''Go'',
       CreatedAt = 1000, UpdatedAt = 2000, PushedAt = 3000, DiskUsage = 10,
       Selected = False \<rparr>"

definition env0 :: Env where
  "env0 = \<lparr> now = 1000000, inputUpdate = (\<lambda>key ti. ti) \<rparr>"

text \<open>Two records have the same sort key for a field: the values \<open>swap_test\<close> compares.\<close>

definition same_key :: "SortField \<Rightarrow> Repo \<Rightarrow> Repo \<Rightarrow> bool" where
  "same_key sortBy a b =
     (case sortBy of
        SortByName \<Rightarrow> Name a = Name b
      | SortByUpdated \<Rightarrow> UpdatedAt a = UpdatedAt b
      | SortByCreated \<Rightarrow> CreatedAt a = CreatedAt b
      | SortByStars \<Rightarrow> StargazerCount a = StargazerCount b
      | SortByForks \<Rightarrow> ForkCount a = ForkCount b
      | SortBySize \<Rightarrow> DiskUsage a = DiskUsage b)"

definition hidden_opts :: FilterOptions where
  "hidden_opts = DefaultFilterOptions\<lparr>ShowPrivate := False, ShowPublic := False\<rparr>"

subsection \<open>Predicates and sample states for the properties\<close>

text \<open>The cursor is a valid index of the filtered view, or 0 when the view is empty.\<close>

definition cursor_ok :: "Model \<Rightarrow> bool" where
  "cursor_ok m =
     (if filteredRepos m = [] then cursor m = 0
      else 0 \<le> cursor m \<and> cursor m \<le> int (length (filteredRepos m)) - 1)"

text \<open>
  The events that change the record set, the filter, the sort or the search: the folds of
  a load, a cache hit, a background refresh with a slice, an archive or delete completion;
  any key while the search entry is active; the sort and visibility keys of the list and
  of the filter panel.
\<close>

definition refilters :: "Model \<Rightarrow> Msg \<Rightarrow> bool" where
  "refilters m msg =
     (case msg of
        reposLoadedMsg rs u \<Rightarrow> True
      | cacheLoadedMsg rs u fresh \<Rightarrow> True
      | backgroundRefreshMsg slice \<Rightarrow> slice \<noteq> None
      | archiveCompleteMsg name \<Rightarrow> True
      | deleteCompleteMsg name \<Rightarrow> True
      | KeyMsg key \<Rightarrow>
          (view m = ViewList \<and> Focused (searchInput m)) \<or>
          (view m = ViewList \<and> key \<in> set [''s'', ''S'', ''1'', ''2'', ''3'', ''4'']) \<or>
          (view m = ViewFilter \<and> key \<in> set [''1'', ''2'', ''3'', ''4'', ''5'', ''s'', ''S'', ''r''])
      | _ \<Rightarrow> False)"

text \<open>The state after folding a list of messages into the initial model.\<close>

definition after :: "Msg list \<Rightarrow> Model" where
  "after msgs = (case run env0 NewModel msgs of Some m \<Rightarrow> m | None \<Rightarrow> NewModel)"

definition three :: "Repo list" where
  "three = [sample ''a'' 5, (sample ''b'' 7)\<lparr>IsArchived := True\<rparr>, sample ''c'' 1]"

definition confirming :: Model where
  "confirming =
     NewModel\<lparr>repos := [(sample ''a'' 5)\<lparr>Selected := True\<rparr>,
                        (sample ''b'' 7)\<lparr>Selected := True, IsArchived := True\<rparr>,
                        sample ''c'' 1],
              client := True, loading := False, view := ViewConfirmArchive, selectedCount := 2\<rparr>"

definition picked :: Model where
  "picked = after [reposLoadedMsg three ''me'', KeyMsg '' '']"

definition one :: Msg where
  "one = reposLoadedMsg [sample ''a'' 5] ''me''"

section \<open>Loops over an index range\<close>

lemma fold_upt_invariant:
  assumes "P xs" and "\<And>j ys. j < n \<Longrightarrow> P ys \<Longrightarrow> P (f j ys)"
  shows "P (fold f [0 ..< n] xs)"
  using assms
proof (induction n)
  case 0
  then show ?case by simp
next
  case (Suc n)
  have "P (fold f [0 ..< n] xs)"
    using Suc.IH Suc.prems by simp
  then show ?case
    using Suc.prems(2) [of n] by simp
qed

lemma fold_upt_pointwise:
  "n \<le> length xs \<Longrightarrow>
     fold (\<lambda>i ys. ys[i := g (ys ! i)]) [0 ..< n] xs = map g (take n xs) @ drop n xs"
proof (induction n)
  case 0
  then show ?case by simp
next
  case (Suc n)
  then have n: "n < length xs" by simp
  have "fold (\<lambda>i ys. ys[i := g (ys ! i)]) [0 ..< Suc n] xs =
          (map g (take n xs) @ drop n xs)[n := g ((map g (take n xs) @ drop n xs) ! n)]"
    using Suc by simp
  also have "\<dots> = map g (take n xs) @ (drop n xs)[0 := g (xs ! n)]"
    using n by (simp add: list_update_append nth_append)
  also have "drop n xs = xs ! n # drop (Suc n) xs"
    using n by (simp add: Cons_nth_drop_Suc)
  also have "map g (take n xs) @ (xs ! n # drop (Suc n) xs)[0 := g (xs ! n)] =
             map g (take (Suc n) xs) @ drop (Suc n) xs"
    using n by (simp add: take_Suc_conv_app_nth)
  finally show ?case .
qed

lemma set_selected_step:
  "(if c (ys ! i) then set_selected b ys i else ys) =
     ys[i := (if c (ys ! i) then (ys ! i)\<lparr>Selected := b\<rparr> else ys ! i)]"
  by (simp add: set_selected_def)

lemma deselectAll_map: "deselectAll rs = map (\<lambda>r. r\<lparr>Selected := False\<rparr>) rs"
  using fold_upt_pointwise [of "length rs" rs "\<lambda>r. r\<lparr>Selected := False\<rparr>"]
  by (simp add: deselectAll_def set_selected_def)

lemma restore_selection_map:
  "restore_selection names rs =
     map (\<lambda>r. if names (FullName r) then r\<lparr>Selected := True\<rparr> else r) rs"
proof -
  have "restore_selection names rs =
          fold (\<lambda>i ys. ys[i := (\<lambda>r. if names (FullName r) then r\<lparr>Selected := True\<rparr> else r) (ys ! i)])
            [0 ..< length rs] rs"
    unfolding restore_selection_def set_selected_def
    by (rule arg_cong [where f = "\<lambda>f. fold f [0 ..< length rs] rs"]) (auto simp: fun_eq_iff)
  then show ?thesis
    using fold_upt_pointwise [of "length rs" rs] by simp
qed

lemma selectedNames_fold:
  "fold (\<lambda>r names. if Selected r then names(FullName r := True) else names) rs init name =
     (init name \<or> (\<exists>r \<in> set rs. Selected r \<and> FullName r = name))"
  by (induction rs arbitrary: init) auto

lemma selectedNames_iff:
  "selectedNames rs name = (\<exists>r \<in> set rs. Selected r \<and> FullName r = name)"
  by (simp add: selectedNames_def selectedNames_fold)

section \<open>Sort: a permutation\<close>

lemma mset_Sort_step:
  "j + 1 < length xs \<Longrightarrow> mset (Sort_step sortBy desc j xs) = mset xs"
  by (simp add: Sort_step_def mset_swap)

lemma mset_Sort_pass: "mset (Sort_pass sortBy desc i xs) = mset xs"
  unfolding Sort_pass_def
proof (rule fold_upt_invariant [where P = "\<lambda>ys. mset ys = mset xs"])
  show "mset xs = mset xs" ..
next
  fix j ys
  assume j: "j < length xs - i - 1" and ys: "mset ys = mset xs"
  from ys have "length ys = length xs" by (rule mset_eq_length)
  with j have "j + 1 < length ys" by simp
  then show "mset (Sort_step sortBy desc j ys) = mset xs"
    using ys by (simp add: mset_Sort_step)
qed

lemma mset_Sort: "mset (Sort xs sortBy desc) = mset xs"
  unfolding Sort_def
  by (rule fold_upt_invariant [where P = "\<lambda>ys. mset ys = mset xs"]) (simp_all add: mset_Sort_pass)

lemma set_Sort: "set (Sort xs sortBy desc) = set xs"
  using mset_Sort [of xs sortBy desc] by (rule mset_eq_setD)

lemma length_Sort: "length (Sort xs sortBy desc) = length xs"
  using mset_Sort [of xs sortBy desc] by (rule mset_eq_length)

section \<open>Filter\<close>

lemma Filter_loop_filter:
  "Filter_loop cutoff opts rs result = result @ filter (\<lambda>r. \<not> skipped cutoff opts r) rs"
  by (induction rs arbitrary: result) simp_all

lemma Filter_filter:
  "Filter t rs opts = filter (\<lambda>r. \<not> skipped (cutoff_of t opts) opts r) rs"
  by (simp add: Filter_def Filter_loop_filter)

lemma set_Filter_subset: "set (Filter t rs opts) \<subseteq> set rs"
  by (simp add: Filter_filter)

lemma Filter_hides_archived:
  "\<not> ShowArchived opts \<Longrightarrow> r \<in> set (Filter t rs opts) \<Longrightarrow> \<not> IsArchived r"
  by (auto simp: Filter_filter skipped_def split: if_splits)


section \<open>Sort: stability\<close>

text \<open>
  A swap exchanges two neighbours. With \<open>desc = False\<close> the test is strict, so the
  neighbours it exchanges have different keys, and the records of any one key keep their
  order.
\<close>

lemma swap_adjacent:
  assumes "Suc j < length xs"
  shows "xs[j := xs ! Suc j, Suc j := xs ! j] =
           take j xs @ xs ! Suc j # xs ! j # drop (Suc (Suc j)) xs"
proof -
  have "xs = take j xs @ xs ! j # xs ! Suc j # drop (Suc (Suc j)) xs"
    using assms by (simp add: Cons_nth_drop_Suc)
  then obtain as bs where xs: "xs = as @ xs ! j # xs ! Suc j # bs"
    and as: "as = take j xs" and bs: "bs = drop (Suc (Suc j)) xs"
    by blast
  have len: "length as = j"
    using assms as by simp
  have "(as @ xs ! j # xs ! Suc j # bs)[j := xs ! Suc j, Suc j := xs ! j] =
          as @ xs ! Suc j # xs ! j # bs"
    using len by (simp add: list_update_append)
  then show ?thesis
    using xs as bs by simp
qed

lemma filter_swap_adjacent:
  assumes "Suc j < length xs" and "\<not> (Q (xs ! j) \<and> Q (xs ! Suc j))"
  shows "filter Q (xs[j := xs ! Suc j, Suc j := xs ! j]) = filter Q xs"
proof -
  define as a b bs where "as = take j xs" and "a = xs ! j" and "b = xs ! Suc j"
    and "bs = drop (Suc (Suc j)) xs"
  have xs: "xs = as @ a # b # bs"
    using assms(1) by (simp add: as_def a_def b_def bs_def Cons_nth_drop_Suc)
  have sw: "xs[j := xs ! Suc j, Suc j := xs ! j] = as @ b # a # bs"
    using swap_adjacent [OF assms(1)] by (simp add: as_def a_def b_def bs_def)
  have "filter Q (as @ b # a # bs) = filter Q (as @ a # b # bs)"
    using assms(2) by (auto simp: a_def b_def)
  then show ?thesis
    using sw xs by metis
qed

lemma swap_test_strict:
  "swap_test sortBy False a b \<Longrightarrow> \<not> same_key sortBy a b"
  by (cases sortBy) (auto simp: swap_test_def same_key_def)

lemma same_key_trans:
  "same_key sortBy x a \<Longrightarrow> same_key sortBy x b \<Longrightarrow> same_key sortBy a b"
  by (cases sortBy) (auto simp: same_key_def)

lemma stable_Sort_step:
  assumes "j + 1 < length xs"
  shows "filter (same_key sortBy x) (Sort_step sortBy False j xs) = filter (same_key sortBy x) xs"
proof (cases "swap_test sortBy False (xs ! j) (xs ! (j + 1))")
  case True
  have "\<not> (same_key sortBy x (xs ! j) \<and> same_key sortBy x (xs ! Suc j))"
  proof
    assume "same_key sortBy x (xs ! j) \<and> same_key sortBy x (xs ! Suc j)"
    then have "same_key sortBy (xs ! j) (xs ! Suc j)"
      using same_key_trans [of sortBy x "xs ! j" "xs ! Suc j"] by blast
    moreover have "\<not> same_key sortBy (xs ! j) (xs ! Suc j)"
      using True swap_test_strict [of sortBy "xs ! j" "xs ! Suc j"] by simp
    ultimately show False by simp
  qed
  then have "filter (same_key sortBy x) (xs[j := xs ! Suc j, Suc j := xs ! j]) =
             filter (same_key sortBy x) xs"
    using assms by (intro filter_swap_adjacent) simp_all
  then show ?thesis
    using True by (simp add: Sort_step_def)
next
  case False
  then show ?thesis by (simp add: Sort_step_def)
qed

lemma length_Sort_step: "length (Sort_step sortBy desc j xs) = length xs"
  by (simp add: Sort_step_def)

lemma length_Sort_pass: "length (Sort_pass sortBy desc i xs) = length xs"
  using mset_Sort_pass [of sortBy desc i xs] by (rule mset_eq_length)

lemma stable_Sort_pass:
  "filter (same_key sortBy x) (Sort_pass sortBy False i xs) = filter (same_key sortBy x) xs"
proof -
  have "length (Sort_pass sortBy False i xs) = length xs \<and>
        filter (same_key sortBy x) (Sort_pass sortBy False i xs) = filter (same_key sortBy x) xs"
    unfolding Sort_pass_def
  proof (rule fold_upt_invariant
      [where P = "\<lambda>ys. length ys = length xs \<and>
                        filter (same_key sortBy x) ys = filter (same_key sortBy x) xs"])
    show "length xs = length xs \<and> filter (same_key sortBy x) xs = filter (same_key sortBy x) xs"
      by simp
  next
    fix j ys
    assume j: "j < length xs - i - 1"
      and ys: "length ys = length xs \<and>
               filter (same_key sortBy x) ys = filter (same_key sortBy x) xs"
    from j ys have "j + 1 < length ys" by simp
    then show "length (Sort_step sortBy False j ys) = length xs \<and>
               filter (same_key sortBy x) (Sort_step sortBy False j ys) =
                 filter (same_key sortBy x) xs"
      using ys by (simp add: stable_Sort_step length_Sort_step)
  qed
  then show ?thesis by simp
qed

lemma Sort_ascending_stable:
  "filter (same_key sortBy x) (Sort xs sortBy False) = filter (same_key sortBy x) xs"
  unfolding Sort_def
  by (rule fold_upt_invariant
        [where P = "\<lambda>ys. filter (same_key sortBy x) ys = filter (same_key sortBy x) xs"])
     (simp_all add: stable_Sort_pass)

text \<open>
  Claim C1 (Sort is stable in both directions). The ascending direction is stable
  (\<open>Sort_ascending_stable\<close> above). With \<open>desc = True\<close> the negated test also holds
  for two records of equal key, so they are exchanged: two records with five stars each
  come out in the opposite order, where the same call with \<open>desc = False\<close> keeps them.
\<close>

theorem Sort_descending_reverses_ties:
  "same_key SortByStars (sample ''a'' 5) (sample ''b'' 5) \<and>
   Sort [sample ''a'' 5, sample ''b'' 5] SortByStars True = [sample ''b'' 5, sample ''a'' 5] \<and>
   Sort [sample ''a'' 5, sample ''b'' 5] SortByStars False = [sample ''a'' 5, sample ''b'' 5]"
  by code_simp

section \<open>Filter: idempotence and the two visibility switches\<close>

text \<open>
  Claim C5: with the clock read once, filtering a filtered list with the same options
  gives the same list.
\<close>

theorem Filter_idempotent: "Filter t (Filter t R opts) opts = Filter t R opts"
  by (simp add: Filter_filter)

text \<open>
  Claim C6: with show-private and show-public both off, every record is skipped, so the
  result is empty whatever the input.
\<close>

theorem Filter_both_hidden:
  "\<not> ShowPrivate opts \<Longrightarrow> \<not> ShowPublic opts \<Longrightarrow> Filter t R opts = []"
  by (simp add: Filter_filter skipped_def)

theorem Filter_both_hidden_witness:
  "\<not> ShowPrivate hidden_opts \<and> \<not> ShowPublic hidden_opts \<and> [sample ''a'' 5] \<noteq> [] \<and>
   Filter 1000000 [sample ''a'' 5] hidden_opts = []"
  using Filter_both_hidden [of hidden_opts 1000000 "[sample ''a'' 5]"]
  by (simp add: hidden_opts_def DefaultFilterOptions_def)


section \<open>The cursor after applyFilters\<close>

lemma cursor_ok_adjustOffset: "cursor_ok (adjustOffset m) = cursor_ok m"
  by (simp add: adjustOffset_def cursor_ok_def Let_def)

lemma cursor_ok_applyFilters: "cursor_ok (applyFilters t m)"
  by (simp add: applyFilters_def Let_def cursor_ok_adjustOffset) (simp add: cursor_ok_def)

lemma cursor_ok_toggle: "cursor_ok (toggle f t m)"
  by (simp add: toggle_def cursor_ok_applyFilters)

lemma cursor_ok_message: "cursor_ok (m\<lparr>message := s\<rparr>) = cursor_ok m"
  by (simp add: cursor_ok_def)

lemma search_key_refilters:
  assumes "view m = ViewList" and "Focused (searchInput m)"
  shows "\<exists>m' cmds. Update env m (KeyMsg key) = Some (m', cmds) \<and> cursor_ok m'"
  using assms
  by (simp add: Update_def handleKeyPress_def handleListKeys_def Let_def cursor_ok_toggle)

lemma list_key_refilters:
  assumes "view m = ViewList" and "\<not> Focused (searchInput m)"
    and "key \<in> set [''s'', ''S'', ''1'', ''2'', ''3'', ''4'']"
  shows "\<exists>m' cmds. Update env m (KeyMsg key) = Some (m', cmds) \<and> cursor_ok m'"
proof -
  have "\<exists>m' cmds. handleListKeys env m key = Some (m', cmds) \<and> cursor_ok m'"
    using assms(2,3)
    by (auto simp: handleListKeys_def cursor_ok_toggle cursor_ok_applyFilters)
  moreover have "key \<noteq> ''ctrl+c''" and "key \<noteq> ''q''"
    using assms(3) by auto
  ultimately show ?thesis
    using assms(1) by (simp add: Update_def handleKeyPress_def)
qed

lemma filter_key_refilters:
  assumes "view m = ViewFilter"
    and "key \<in> set [''1'', ''2'', ''3'', ''4'', ''5'', ''s'', ''S'', ''r'']"
  shows "\<exists>m' cmds. Update env m (KeyMsg key) = Some (m', cmds) \<and> cursor_ok m'"
proof -
  have "\<exists>m' cmds. handleFilterKeys env m key = Some (m', cmds) \<and> cursor_ok m'"
    using assms(2)
    by (auto simp: handleFilterKeys_def cursor_ok_toggle cursor_ok_applyFilters)
  then show ?thesis
    using assms(1) by (simp add: Update_def handleKeyPress_def)
qed

text \<open>
  Claim C4: after every fold that changes the record set and after every filter, sort,
  search or refresh change (the events of \<open>refilters\<close>), Update returns, and in the
  state it returns the cursor is an index of the filtered view, or 0 when the view is
  empty. Every such event ends in \<open>applyFilters\<close>, which clamps whatever the cursor was.
\<close>

theorem cursor_clamped:
  "refilters m msg \<Longrightarrow> \<exists>m' cmds. Update env m msg = Some (m', cmds) \<and> cursor_ok m'"
proof (cases msg)
  case (KeyMsg key)
  assume "refilters m msg"
  then consider "view m = ViewList \<and> Focused (searchInput m)"
    | "view m = ViewList \<and> \<not> Focused (searchInput m) \<and>
         key \<in> set [''s'', ''S'', ''1'', ''2'', ''3'', ''4'']"
    | "view m = ViewFilter \<and> key \<in> set [''1'', ''2'', ''3'', ''4'', ''5'', ''s'', ''S'', ''r'']"
    unfolding refilters_def KeyMsg by (simp only: Msg.case) blast
  then show ?thesis
    unfolding KeyMsg
    using search_key_refilters list_key_refilters filter_key_refilters by cases blast+
next
  case (backgroundRefreshMsg slice)
  assume "refilters m msg"
  then obtain rs where "slice = Some rs"
    by (auto simp: refilters_def backgroundRefreshMsg)
  then show ?thesis
    by (simp add: backgroundRefreshMsg Update_def Let_def cursor_ok_message cursor_ok_applyFilters)
qed (simp_all add: refilters_def Update_def Let_def cursor_ok_message cursor_ok_applyFilters)


theorem cursor_clamped_witness:
  "refilters (after [reposLoadedMsg three ''me'', KeyMsg ''G'']) (deleteCompleteMsg ''me/c'') \<and>
   cursor (after [reposLoadedMsg three ''me'', KeyMsg ''G'']) = 1 \<and>
   cursor (after [reposLoadedMsg three ''me'', KeyMsg ''G'', deleteCompleteMsg ''me/c'']) = 0 \<and>
   (\<exists>m' cmds. Update env0 (after [reposLoadedMsg three ''me'', KeyMsg ''G''])
                  (deleteCompleteMsg ''me/c'') = Some (m', cmds) \<and> cursor_ok m')"
proof -
  have a: "refilters (after [reposLoadedMsg three ''me'', KeyMsg ''G'']) (deleteCompleteMsg ''me/c'')"
    by (simp add: refilters_def)
  have b: "cursor (after [reposLoadedMsg three ''me'', KeyMsg ''G'']) = 1"
    by code_simp
  have c: "cursor (after [reposLoadedMsg three ''me'', KeyMsg ''G'', deleteCompleteMsg ''me/c'']) = 0"
    by code_simp
  show ?thesis
    using a b c cursor_clamped [OF a, of env0] by blast
qed


section \<open>Folding an error\<close>






















section \<open>Dispatching a bulk action\<close>

lemma archive_loop_map:
  "archive_loop c rs cmds =
     cmds @ map (\<lambda>r. archiveCmd c (FullName r)) (filter (\<lambda>r. Selected r \<and> \<not> IsArchived r) rs)"
  by (induction rs arbitrary: cmds) simp_all

lemma delete_loop_map:
  "delete_loop c rs cmds = cmds @ map (\<lambda>r. deleteCmd c (FullName r)) (filter Selected rs)"
  by (induction rs arbitrary: cmds) simp_all

text \<open>
  Claim C8: \<open>y\<close> on Confirm-Archive returns at once with the screen set to List, the
  records untouched, and one command per record that is selected and not archived, in the
  order of the record set, each holding that record's identifier; on Confirm-Delete one
  command per selected record. Each command, when run, resolves to the completion message
  for that identifier or to an error.
\<close>

theorem confirm_dispatches_per_record:
  "(view m = ViewConfirmArchive \<longrightarrow>
      Update env m (KeyMsg ''y'') =
        Some (m\<lparr>view := ViewList\<rparr>,
              map (\<lambda>r. archiveCmd (client m) (FullName r))
                (filter (\<lambda>r. Selected r \<and> \<not> IsArchived r) (repos m)))) \<and>
   (view m = ViewConfirmDelete \<longrightarrow>
      Update env m (KeyMsg ''y'') =
        Some (m\<lparr>view := ViewList\<rparr>,
              map (\<lambda>r. deleteCmd (client m) (FullName r)) (filter Selected (repos m)))) \<and>
   (archiveOp p c name = archiveCompleteMsg name \<or> (\<exists>e. archiveOp p c name = errorMsg e)) \<and>
   (deleteOp p c name = deleteCompleteMsg name \<or> (\<exists>e. deleteOp p c name = errorMsg e))"
  by (auto simp: Update_def handleKeyPress_def handleConfirmArchiveKeys_def
      handleConfirmDeleteKeys_def archive_loop_map delete_loop_map archiveOp_def deleteOp_def
      split: option.splits)

theorem confirm_dispatches_per_record_witness:
  "view confirming = ViewConfirmArchive \<and>
   Update env0 confirming (KeyMsg ''y'') =
     Some (confirming\<lparr>view := ViewList\<rparr>, [archiveCmd True ''me/a'']) \<and>
   view (confirming\<lparr>view := ViewConfirmDelete\<rparr>) = ViewConfirmDelete \<and>
   Update env0 (confirming\<lparr>view := ViewConfirmDelete\<rparr>) (KeyMsg ''y'') =
     Some (confirming\<lparr>view := ViewList\<rparr>, [deleteCmd True ''me/a'', deleteCmd True ''me/b''])"
  using confirm_dispatches_per_record [of confirming env0]
    confirm_dispatches_per_record [of "confirming\<lparr>view := ViewConfirmDelete\<rparr>" env0]
  by (simp add: confirming_def NewModel_def sample_def)



section \<open>Folding a load\<close>

lemma ListRepos_slice_fold:
  "fold (\<lambda>n allRepos. Some ((case allRepos of None \<Rightarrow> [] | Some rs \<Rightarrow> rs) @
                               [n\<lparr>Selected := False\<rparr>])) nodes acc =
     (if nodes = [] then acc
      else Some ((case acc of None \<Rightarrow> [] | Some rs \<Rightarrow> rs) @
                 map (\<lambda>n. n\<lparr>Selected := False\<rparr>) nodes))"
  by (induction nodes arbitrary: acc) auto

lemma ListRepos_slice_eq:
  "ListRepos_slice nodes =
     (if nodes = [] then None else Some (map (\<lambda>n. n\<lparr>Selected := False\<rparr>) nodes))"
  by (simp add: ListRepos_slice_def ListRepos_slice_fold)

lemma slice_list_ListRepos: "slice_list (ListRepos_slice nodes) = map (\<lambda>n. n\<lparr>Selected := False\<rparr>) nodes"
  by (simp add: ListRepos_slice_eq slice_list_def)

lemma filteredRepos_applyFilters:
  "filteredRepos (applyFilters t m) =
     Sort (Filter t (repos m) (filterOpts m)) (SortBy (filterOpts m)) (SortDesc (filterOpts m))"
  by (simp add: applyFilters_def adjustOffset_def Let_def)

lemma repos_applyFilters: "repos (applyFilters t m) = repos m"
  by (simp add: applyFilters_def adjustOffset_def Let_def)

lemma filterOpts_applyFilters: "filterOpts (applyFilters t m) = filterOpts m"
  by (simp add: applyFilters_def adjustOffset_def Let_def)

lemma set_filteredRepos_applyFilters: "set (filteredRepos (applyFilters t m)) \<subseteq> set (repos m)"
  using set_Filter_subset by (simp add: filteredRepos_applyFilters set_Sort)

lemma reposLoaded_fold:
  "\<exists>m'. Update env m (reposLoadedMsg rs u) = Some (m', []) \<and> repos m' = rs \<and>
         set (filteredRepos m') \<subseteq> set rs"
proof -
  have "set (filteredRepos (applyFilters (now env)
          (m\<lparr>loading := False, repos := rs, username := u, client := True\<rparr>))) \<subseteq> set rs"
    using set_filteredRepos_applyFilters
      [of "now env" "m\<lparr>loading := False, repos := rs, username := u, client := True\<rparr>"]
    by simp
  then show ?thesis
    by (simp add: Update_def Let_def repos_applyFilters)
qed

text \<open>
  Claim C10: folding a load or forced-refresh success makes the record set exactly the
  records of the message. When those records are unselected, as the ones
  \<^verbatim>\<open>forceRefreshRepos\<close> builds from \<^verbatim>\<open>ListRepos\<close> are, no record of the new
  record set or of the new filtered view is selected, whatever was selected before.
\<close>

theorem load_replaces_and_drops_selection:
  "(\<exists>m'. Update env m (reposLoadedMsg rs u) = Some (m', []) \<and> repos m' = rs \<and>
          ((\<forall>r \<in> set rs. \<not> Selected r) \<longrightarrow>
             (\<forall>r \<in> set (repos m'). \<not> Selected r) \<and>
             (\<forall>r \<in> set (filteredRepos m'). \<not> Selected r))) \<and>
   (\<exists>m'. Update env m (forceRefreshRepos (Inr u) (Inr nodes)) = Some (m', []) \<and>
          repos m' = map (\<lambda>n. n\<lparr>Selected := False\<rparr>) nodes \<and>
          (\<forall>r \<in> set (repos m'). \<not> Selected r) \<and>
          (\<forall>r \<in> set (filteredRepos m'). \<not> Selected r))"
proof -
  have drops: "(\<forall>r \<in> set new. \<not> Selected r) \<longrightarrow>
      (\<forall>r \<in> set (repos m'). \<not> Selected r) \<and> (\<forall>r \<in> set (filteredRepos m'). \<not> Selected r)"
    if "repos m' = new" and "set (filteredRepos m') \<subseteq> set new" for m' new
    using that by (simp add: subset_iff)
  obtain m1 where m1: "Update env m (reposLoadedMsg rs u) = Some (m1, [])"
    "repos m1 = rs" "set (filteredRepos m1) \<subseteq> set rs"
    using reposLoaded_fold [of env m rs u] by (elim exE conjE)
  let ?new = "map (\<lambda>n. n\<lparr>Selected := False\<rparr>) nodes"
  have msg: "forceRefreshRepos (Inr u) (Inr nodes) = reposLoadedMsg ?new u"
    by (simp add: forceRefreshRepos_def slice_list_ListRepos)
  have new: "\<forall>r \<in> set ?new. \<not> Selected r"
    by simp
  obtain m2 where m2: "Update env m (reposLoadedMsg ?new u) = Some (m2, [])"
    "repos m2 = ?new" "set (filteredRepos m2) \<subseteq> set ?new"
    using reposLoaded_fold [of env m ?new u] by (elim exE conjE)
  have first: "\<exists>m'. Update env m (reposLoadedMsg rs u) = Some (m', []) \<and> repos m' = rs \<and>
          ((\<forall>r \<in> set rs. \<not> Selected r) \<longrightarrow>
             (\<forall>r \<in> set (repos m'). \<not> Selected r) \<and>
             (\<forall>r \<in> set (filteredRepos m'). \<not> Selected r))"
    using m1(1,2) drops [OF m1(2,3)] by (intro exI [of _ m1] conjI)
  have sel: "(\<forall>r \<in> set (repos m2). \<not> Selected r) \<and> (\<forall>r \<in> set (filteredRepos m2). \<not> Selected r)"
    using drops [OF m2(2,3)] new by (rule mp)
  have second: "\<exists>m'. Update env m (forceRefreshRepos (Inr u) (Inr nodes)) = Some (m', []) \<and>
          repos m' = ?new \<and>
          (\<forall>r \<in> set (repos m'). \<not> Selected r) \<and>
          (\<forall>r \<in> set (filteredRepos m'). \<not> Selected r)"
    unfolding msg using m2(1,2) sel by (intro exI [of _ m2] conjI) simp_all
  show ?thesis
    using first second by (rule conjI)
qed

theorem load_replaces_and_drops_selection_witness:
  "map Selected (repos (after [reposLoadedMsg three ''me'', KeyMsg '' ''])) = [False, False, True] \<and>
   map Selected three = [False, False, False] \<and>
   (\<exists>m'. Update env0 (after [reposLoadedMsg three ''me'', KeyMsg '' ''])
            (forceRefreshRepos (Inr ''me'') (Inr three)) = Some (m', []) \<and>
          repos m' = three \<and>
          list_all (\<lambda>r. \<not> Selected r) (repos m') \<and>
          list_all (\<lambda>r. \<not> Selected r) (filteredRepos m'))"
proof -
  have a: "map Selected (repos (after [reposLoadedMsg three ''me'', KeyMsg '' ''])) = [False, False, True]"
    by code_simp
  have b: "map Selected three = [False, False, False]"
    by code_simp
  have c: "map (\<lambda>n. n\<lparr>Selected := False\<rparr>) three = three"
    by (simp add: three_def sample_def)
  obtain m' where m':
    "Update env0 (after [reposLoadedMsg three ''me'', KeyMsg '' ''])
       (forceRefreshRepos (Inr ''me'') (Inr three)) = Some (m', [])"
    "repos m' = map (\<lambda>n. n\<lparr>Selected := False\<rparr>) three"
    "\<forall>r \<in> set (repos m'). \<not> Selected r"
    "\<forall>r \<in> set (filteredRepos m'). \<not> Selected r"
    using load_replaces_and_drops_selection
        [of env0 "after [reposLoadedMsg three ''me'', KeyMsg '' '']" three "''me''" three]
    by (elim conjE exE) 
  have "repos m' = three"
    using m'(2) c by simp
  moreover have "list_all (\<lambda>r. \<not> Selected r) (repos m')"
    using m'(3) by (simp add: list_all_iff)
  moreover have "list_all (\<lambda>r. \<not> Selected r) (filteredRepos m')"
    using m'(4) by (simp add: list_all_iff)
  ultimately have "\<exists>m'. Update env0 (after [reposLoadedMsg three ''me'', KeyMsg '' ''])
            (forceRefreshRepos (Inr ''me'') (Inr three)) = Some (m', []) \<and>
          repos m' = three \<and>
          list_all (\<lambda>r. \<not> Selected r) (repos m') \<and>
          list_all (\<lambda>r. \<not> Selected r) (filteredRepos m')"
    using m'(1) by (intro exI [of _ m'] conjI)
  then show ?thesis
    using a b by (intro conjI)
qed



section \<open>Folding an archive completion\<close>

lemma mark_archived_absent:
  "name \<notin> FullName ` set rs \<Longrightarrow> mark_archived name rs = rs"
  by (induction rs) auto

lemma mark_archived_first:
  "i < length rs \<Longrightarrow> FullName (rs ! i) = name \<Longrightarrow> \<forall>j<i. FullName (rs ! j) \<noteq> name \<Longrightarrow>
     mark_archived name rs = rs[i := (rs ! i)\<lparr>IsArchived := True, Selected := False\<rparr>]"
proof (induction rs arbitrary: i)
  case Nil
  then show ?case by simp
next
  case (Cons r rs)
  show ?case
  proof (cases i)
    case 0
    then show ?thesis using Cons.prems by simp
  next
    case (Suc k)
    have head: "FullName r \<noteq> name"
      using Cons.prems(3) Suc by auto
    have "\<forall>j<k. FullName (rs ! j) \<noteq> name"
      using Cons.prems(3) Suc by auto
    then have "mark_archived name rs = rs[k := (rs ! k)\<lparr>IsArchived := True, Selected := False\<rparr>]"
      using Cons.IH [of k] Cons.prems(1,2) Suc by simp
    then show ?thesis
      using head Suc by simp
  qed
qed

lemma mark_archived_named:
  "distinct (map FullName rs) \<Longrightarrow> r \<in> set (mark_archived name rs) \<Longrightarrow> FullName r = name \<Longrightarrow>
     IsArchived r"
proof (induction rs)
  case Nil
  then show ?case by simp
next
  case (Cons x xs)
  show ?case
  proof (cases "FullName x = name")
    case True
    then have "r = x\<lparr>IsArchived := True, Selected := False\<rparr> \<or> r \<in> set xs"
      using Cons.prems(2) by simp
    moreover have "r \<notin> set xs"
    proof
      assume "r \<in> set xs"
      then have "FullName x \<in> FullName ` set xs"
        using True Cons.prems(3) by (simp add: image_iff) metis
      then show False
        using Cons.prems(1) by simp
    qed
    ultimately show ?thesis by auto
  next
    case False
    then have "r = x \<or> r \<in> set (mark_archived name xs)"
      using Cons.prems(2) by simp
    then have "r \<in> set (mark_archived name xs)"
      using False Cons.prems(3) by blast
    then show ?thesis
      using Cons.IH Cons.prems(1,3) by simp
  qed
qed

lemma archiveComplete_update:
  "Update env m (archiveCompleteMsg name) =
     Some (applyFilters (now env)
             (m\<lparr>message := ''Archived: '' @ name, messageIsError := False,
                repos := mark_archived name (repos m)\<rparr>), [])"
  by (simp add: Update_def Let_def)

text \<open>
  Claim C7: folding archive-completed(id) returns a state whose filtered view is the
  filter and sort of its record set under the unchanged options. If no record has the
  identifier, the record set is the old one. If a record has it, the first such record
  (the only one when identifiers are unique) gets archived set and selected cleared, and
  nothing else in the record set changes. When archived records are hidden and
  identifiers are unique, no record with that identifier is left in the filtered view.
\<close>

theorem archive_complete_fold:
  "\<exists>m'. Update env m (archiveCompleteMsg name) = Some (m', []) \<and>
      filterOpts m' = filterOpts m \<and>
      filteredRepos m' =
        Sort (Filter (now env) (repos m') (filterOpts m))
             (SortBy (filterOpts m)) (SortDesc (filterOpts m)) \<and>
      (name \<notin> FullName ` set (repos m) \<longrightarrow> repos m' = repos m) \<and>
      (\<forall>i<length (repos m).
         FullName (repos m ! i) = name \<and> (\<forall>j<i. FullName (repos m ! j) \<noteq> name) \<longrightarrow>
         repos m' = (repos m)[i := (repos m ! i)\<lparr>IsArchived := True, Selected := False\<rparr>]) \<and>
      (\<not> ShowArchived (filterOpts m) \<and> distinct (map FullName (repos m)) \<longrightarrow>
         name \<notin> FullName ` set (filteredRepos m'))"
proof -
  define m' where "m' = applyFilters (now env)
             (m\<lparr>message := ''Archived: '' @ name, messageIsError := False,
                repos := mark_archived name (repos m)\<rparr>)"
  have upd: "Update env m (archiveCompleteMsg name) = Some (m', [])"
    by (simp add: archiveComplete_update m'_def)
  have rs: "repos m' = mark_archived name (repos m)"
    by (simp add: m'_def repos_applyFilters)
  have opts: "filterOpts m' = filterOpts m"
    by (simp add: m'_def filterOpts_applyFilters)
  have fs: "filteredRepos m' =
        Sort (Filter (now env) (repos m') (filterOpts m))
             (SortBy (filterOpts m)) (SortDesc (filterOpts m))"
    by (simp add: m'_def filteredRepos_applyFilters repos_applyFilters)
  have absent: "name \<notin> FullName ` set (repos m) \<longrightarrow> repos m' = repos m"
    by (simp add: rs mark_archived_absent)
  have present: "\<forall>i<length (repos m).
         FullName (repos m ! i) = name \<and> (\<forall>j<i. FullName (repos m ! j) \<noteq> name) \<longrightarrow>
         repos m' = (repos m)[i := (repos m ! i)\<lparr>IsArchived := True, Selected := False\<rparr>]"
    by (simp add: rs mark_archived_first)
  have hidden: "\<not> ShowArchived (filterOpts m) \<and> distinct (map FullName (repos m)) \<longrightarrow>
         name \<notin> FullName ` set (filteredRepos m')"
  proof (intro impI notI, elim conjE)
    assume hide: "\<not> ShowArchived (filterOpts m)" and dist: "distinct (map FullName (repos m))"
      and "name \<in> FullName ` set (filteredRepos m')"
    then obtain r where r: "r \<in> set (filteredRepos m')" "FullName r = name"
      by auto
    have in_filter: "r \<in> set (Filter (now env) (repos m') (filterOpts m))"
      using r(1) by (simp add: fs set_Sort)
    then have "r \<in> set (mark_archived name (repos m))"
      using set_Filter_subset [of "now env" "repos m'" "filterOpts m"] rs by auto
    then have "IsArchived r"
      using dist r(2) mark_archived_named [of "repos m" r name] by simp
    moreover have "\<not> IsArchived r"
      using hide in_filter by (rule Filter_hides_archived)
    ultimately show False by simp
  qed
  show ?thesis
  proof (rule exI [of _ m'], intro conjI)
    show "Update env m (archiveCompleteMsg name) = Some (m', [])" by (rule upd)
    show "filterOpts m' = filterOpts m" by (rule opts)
  qed (rule fs absent present hidden)+
qed

theorem archive_complete_fold_witness:
  "repos picked =
     [sample ''a'' 5, (sample ''b'' 7)\<lparr>IsArchived := True\<rparr>, (sample ''c'' 1)\<lparr>Selected := True\<rparr>] \<and>
   (\<exists>m'. Update env0 picked (archiveCompleteMsg ''me/c'') = Some (m', []) \<and>
          repos m' =
            [sample ''a'' 5, (sample ''b'' 7)\<lparr>IsArchived := True\<rparr>,
             (sample ''c'' 1)\<lparr>IsArchived := True\<rparr>] \<and>
          ''me/c'' \<notin> FullName ` set (filteredRepos m')) \<and>
   (\<exists>m'. Update env0 picked (archiveCompleteMsg ''me/gone'') = Some (m', []) \<and>
          repos m' = repos picked)"
proof -
  have rs: "repos picked =
     [sample ''a'' 5, (sample ''b'' 7)\<lparr>IsArchived := True\<rparr>, (sample ''c'' 1)\<lparr>Selected := True\<rparr>]"
    by code_simp
  have opts: "\<not> ShowArchived (filterOpts picked)"
    by code_simp
  have dist: "distinct (map FullName (repos picked))"
    by (simp add: rs sample_def)
  have at: "(2::nat) < length (repos picked)" "FullName (repos picked ! 2) = ''me/c''"
    by (simp_all add: rs sample_def)
  have before: "\<forall>j<2. FullName (repos picked ! j) \<noteq> ''me/c''"
    by (simp add: rs sample_def less_Suc_eq numeral_2_eq_2)
  have gone: "''me/gone'' \<notin> FullName ` set (repos picked)"
    by (simp add: rs sample_def)
  obtain m1 where m1: "Update env0 picked (archiveCompleteMsg ''me/c'') = Some (m1, [])"
    and present: "\<forall>i<length (repos picked).
         FullName (repos picked ! i) = ''me/c'' \<and> (\<forall>j<i. FullName (repos picked ! j) \<noteq> ''me/c'') \<longrightarrow>
         repos m1 = (repos picked)[i := (repos picked ! i)\<lparr>IsArchived := True, Selected := False\<rparr>]"
    and hidden: "\<not> ShowArchived (filterOpts picked) \<and> distinct (map FullName (repos picked)) \<longrightarrow>
         ''me/c'' \<notin> FullName ` set (filteredRepos m1)"
    using archive_complete_fold [of env0 picked "''me/c''"] by (elim exE conjE)
  obtain m2 where m2: "Update env0 picked (archiveCompleteMsg ''me/gone'') = Some (m2, [])"
    and absent: "''me/gone'' \<notin> FullName ` set (repos picked) \<longrightarrow> repos m2 = repos picked"
    using archive_complete_fold [of env0 picked "''me/gone''"] by (elim exE conjE)
  have "repos m1 = (repos picked)[2 := (repos picked ! 2)\<lparr>IsArchived := True, Selected := False\<rparr>]"
    using present at before by blast
  then have r1: "repos m1 =
            [sample ''a'' 5, (sample ''b'' 7)\<lparr>IsArchived := True\<rparr>,
             (sample ''c'' 1)\<lparr>IsArchived := True\<rparr>]"
    by (simp add: rs sample_def)
  have h1: "''me/c'' \<notin> FullName ` set (filteredRepos m1)"
    using hidden opts dist by blast
  have r2: "repos m2 = repos picked"
    using absent gone by blast
  have first: "\<exists>m'. Update env0 picked (archiveCompleteMsg ''me/c'') = Some (m', []) \<and>
          repos m' =
            [sample ''a'' 5, (sample ''b'' 7)\<lparr>IsArchived := True\<rparr>,
             (sample ''c'' 1)\<lparr>IsArchived := True\<rparr>] \<and>
          ''me/c'' \<notin> FullName ` set (filteredRepos m')"
    using m1 r1 h1 by blast
  have second: "\<exists>m'. Update env0 picked (archiveCompleteMsg ''me/gone'') = Some (m', []) \<and>
          repos m' = repos picked"
    using m2 r2 by blast
  show ?thesis
    using rs first second by (intro conjI)
qed



section \<open>Folding a background refresh\<close>

lemma backgroundRefresh_some:
  "\<exists>m'. Update env m (backgroundRefreshMsg (Some new)) = Some (m', []) \<and>
     repos m' =
       map (\<lambda>r. if (\<exists>old \<in> set (repos m). Selected old \<and> FullName old = FullName r)
                  then r\<lparr>Selected := True\<rparr> else r) new"
  by (simp add: Update_def Let_def repos_applyFilters restore_selection_map selectedNames_iff)

lemma merge_unselected:
  "\<not> Selected r \<Longrightarrow> (if b then r\<lparr>Selected := True\<rparr> else r) = r\<lparr>Selected := b\<rparr>"
  by (cases b) simp_all

lemma backgroundRefresh_unselected:
  assumes "\<forall>r \<in> set new. \<not> Selected r"
  shows "\<exists>m'. Update env m (backgroundRefreshMsg (Some new)) = Some (m', []) \<and>
     repos m' =
       map (\<lambda>r. r\<lparr>Selected := (\<exists>old \<in> set (repos m). Selected old \<and> FullName old = FullName r)\<rparr>)
         new"
proof -
  obtain m' where m': "Update env m (backgroundRefreshMsg (Some new)) = Some (m', [])"
    "repos m' =
       map (\<lambda>r. if (\<exists>old \<in> set (repos m). Selected old \<and> FullName old = FullName r)
                  then r\<lparr>Selected := True\<rparr> else r) new"
    using backgroundRefresh_some [of env m new] by (elim exE conjE)
  have "repos m' =
       map (\<lambda>r. r\<lparr>Selected := (\<exists>old \<in> set (repos m). Selected old \<and> FullName old = FullName r)\<rparr>)
         new"
    unfolding m'(2) using assms by (intro map_cong refl merge_unselected) simp
  then show ?thesis
    using m'(1) by blast
qed

text \<open>
  Claim C3, amended. \<^verbatim>\<open>refreshRepos\<close> always delivers a message on success. When it
  fetched no record the slice is \<^verbatim>\<open>nil\<close>, and folding the message leaves the model
  as it was. When it fetched records, folding replaces the record set with the fetched
  records, in their order and with their fields, each selected exactly when a selected
  record of the old set has its identifier: identifiers new to the set are unselected and
  records absent from the fetched set are gone. The same holds for any slice that is not
  \<^verbatim>\<open>nil\<close> and whose records arrive unselected.
\<close>

theorem background_refresh_merge:
  "(\<exists>msg. refreshRepos (Inr nodes) = Some msg \<and>
      (nodes = [] \<longrightarrow> Update env m msg = Some (m, [])) \<and>
      (nodes \<noteq> [] \<longrightarrow>
         (\<exists>m'. Update env m msg = Some (m', []) \<and>
            repos m' =
              map (\<lambda>n. n\<lparr>Selected :=
                         (\<exists>old \<in> set (repos m). Selected old \<and> FullName old = FullName n)\<rparr>)
                nodes))) \<and>
   Update env m (backgroundRefreshMsg None) = Some (m, []) \<and>
   ((\<forall>r \<in> set new. \<not> Selected r) \<longrightarrow>
      (\<exists>m'. Update env m (backgroundRefreshMsg (Some new)) = Some (m', []) \<and>
         repos m' =
           map (\<lambda>r. r\<lparr>Selected :=
                      (\<exists>old \<in> set (repos m). Selected old \<and> FullName old = FullName r)\<rparr>)
             new))"
proof -
  have nil: "Update env m (backgroundRefreshMsg None) = Some (m, [])"
    by (simp add: Update_def)
  have general: "(\<forall>r \<in> set new. \<not> Selected r) \<longrightarrow>
      (\<exists>m'. Update env m (backgroundRefreshMsg (Some new)) = Some (m', []) \<and>
         repos m' =
           map (\<lambda>r. r\<lparr>Selected :=
                      (\<exists>old \<in> set (repos m). Selected old \<and> FullName old = FullName r)\<rparr>)
             new)"
    using backgroundRefresh_unselected [of new env m] by blast
  let ?fetched = "map (\<lambda>n. n\<lparr>Selected := False\<rparr>) nodes"
  have msg: "refreshRepos (Inr nodes) = Some (backgroundRefreshMsg (ListRepos_slice nodes))"
    by (simp add: refreshRepos_def)
  have empty: "nodes = [] \<longrightarrow>
      Update env m (backgroundRefreshMsg (ListRepos_slice nodes)) = Some (m, [])"
    using nil by (simp add: ListRepos_slice_eq)
  have filled: "nodes \<noteq> [] \<longrightarrow>
         (\<exists>m'. Update env m (backgroundRefreshMsg (ListRepos_slice nodes)) = Some (m', []) \<and>
            repos m' =
              map (\<lambda>n. n\<lparr>Selected :=
                         (\<exists>old \<in> set (repos m). Selected old \<and> FullName old = FullName n)\<rparr>)
                nodes)"
  proof
    assume ne: "nodes \<noteq> []"
    obtain m' where m': "Update env m (backgroundRefreshMsg (Some ?fetched)) = Some (m', [])"
      "repos m' =
         map (\<lambda>r. r\<lparr>Selected :=
                      (\<exists>old \<in> set (repos m). Selected old \<and> FullName old = FullName r)\<rparr>)
           ?fetched"
      using backgroundRefresh_unselected [of ?fetched env m] by auto
    have "repos m' =
         map (\<lambda>n. n\<lparr>Selected :=
                      (\<exists>old \<in> set (repos m). Selected old \<and> FullName old = FullName n)\<rparr>)
           nodes"
      unfolding m'(2) by (simp add: comp_def)
    then show "\<exists>m'. Update env m (backgroundRefreshMsg (ListRepos_slice nodes)) = Some (m', []) \<and>
            repos m' =
              map (\<lambda>n. n\<lparr>Selected :=
                         (\<exists>old \<in> set (repos m). Selected old \<and> FullName old = FullName n)\<rparr>)
                nodes"
      using m'(1) ne by (auto simp: ListRepos_slice_eq)
  qed
  have "\<exists>msg. refreshRepos (Inr nodes) = Some msg \<and>
      (nodes = [] \<longrightarrow> Update env m msg = Some (m, [])) \<and>
      (nodes \<noteq> [] \<longrightarrow>
         (\<exists>m'. Update env m msg = Some (m', []) \<and>
            repos m' =
              map (\<lambda>n. n\<lparr>Selected :=
                         (\<exists>old \<in> set (repos m). Selected old \<and> FullName old = FullName n)\<rparr>)
                nodes))"
    using msg empty filled by blast
  then show ?thesis
    using nil general by (intro conjI)
qed

theorem background_refresh_merge_witness:
  "map FullName (filter Selected (repos picked)) = [''me/c''] \<and>
   list_all (\<lambda>r. \<not> Selected r) [sample ''c'' 9, sample ''d'' 2] \<and>
   (\<exists>m'. Update env0 picked (backgroundRefreshMsg (Some [sample ''c'' 9, sample ''d'' 2]))
            = Some (m', []) \<and>
          repos m' = [(sample ''c'' 9)\<lparr>Selected := True\<rparr>, sample ''d'' 2]) \<and>
   (\<exists>msg m'. refreshRepos (Inr [sample ''c'' 9, sample ''d'' 2]) = Some msg \<and>
          Update env0 picked msg = Some (m', []) \<and>
          repos m' = [(sample ''c'' 9)\<lparr>Selected := True\<rparr>, sample ''d'' 2]) \<and>
   (\<exists>msg. refreshRepos (Inr []) = Some msg \<and> Update env0 picked msg = Some (picked, []))"
proof -
  let ?new = "[sample ''c'' 9, sample ''d'' 2]"
  have rs: "repos picked =
     [sample ''a'' 5, (sample ''b'' 7)\<lparr>IsArchived := True\<rparr>, (sample ''c'' 1)\<lparr>Selected := True\<rparr>]"
    by code_simp
  have sel: "map FullName (filter Selected (repos picked)) = [''me/c'']"
    by (simp add: rs sample_def)
  have new: "\<forall>r \<in> set ?new. \<not> Selected r"
    by (simp add: sample_def)
  have merged: "map (\<lambda>n. n\<lparr>Selected :=
                      (\<exists>old \<in> set (repos picked). Selected old \<and> FullName old = FullName n)\<rparr>)
             ?new = [(sample ''c'' 9)\<lparr>Selected := True\<rparr>, sample ''d'' 2]"
    by (simp add: rs sample_def)
  note inst = background_refresh_merge [of ?new env0 picked ?new]
  note inst0 = background_refresh_merge [of "[]" env0 picked ?new]
  have general: "\<exists>m'. Update env0 picked (backgroundRefreshMsg (Some ?new)) = Some (m', []) \<and>
          repos m' = [(sample ''c'' 9)\<lparr>Selected := True\<rparr>, sample ''d'' 2]"
    using inst new unfolding merged by blast
  have "?new \<noteq> []"
    by simp
  then have fetched: "\<exists>msg m'. refreshRepos (Inr ?new) = Some msg \<and>
          Update env0 picked msg = Some (m', []) \<and>
          repos m' = [(sample ''c'' 9)\<lparr>Selected := True\<rparr>, sample ''d'' 2]"
    using inst unfolding merged by blast
  have nil: "\<exists>msg. refreshRepos (Inr []) = Some msg \<and> Update env0 picked msg = Some (picked, [])"
    using inst0 by blast
  have "list_all (\<lambda>r. \<not> Selected r) ?new"
    using new by (simp add: list_all_iff)
  then show ?thesis
    using sel general fetched nil by (intro conjI)
qed

text \<open>
  Claim C3 as stated fails for the empty result set: a refresh that fetched no record
  delivers the \<^verbatim>\<open>nil\<close> slice, which the guard \<^verbatim>\<open>msg.repos != nil\<close> skips, and the
  three old records stay.
\<close>

theorem refresh_nil_keeps_old_records:
  "refreshRepos (Inr []) = Some (backgroundRefreshMsg None) \<and>
   repos (after [reposLoadedMsg three ''me'']) = three \<and>
   repos (after [reposLoadedMsg three ''me'', backgroundRefreshMsg None]) = three \<and>
   length three = 3"
  by code_simp

section \<open>Selection in the record set and in the filtered view\<close>

text \<open>
  Claim C2 (the filtered view shows the selected flag of the record set; dismissing a
  confirmation leaves nothing selected). The filtered view holds copies. After loading one
  record, selecting it with space and pressing \<open>a\<close> then \<open>n\<close>, the record set has it
  unselected and the filtered view still has its copy selected. Pressing \<open>a\<close> with
  nothing selected marks the record in the record set only. The key \<open>D\<close> clears both.
\<close>

theorem dismissed_confirm_leaves_view_selected:
  "map Selected (repos (after [one, KeyMsg '' '', KeyMsg ''a'', KeyMsg ''n''])) = [False] \<and>
   map Selected (filteredRepos (after [one, KeyMsg '' '', KeyMsg ''a'', KeyMsg ''n''])) = [True] \<and>
   map FullName (repos (after [one, KeyMsg '' '', KeyMsg ''a'', KeyMsg ''n''])) = [''me/a''] \<and>
   map FullName (filteredRepos (after [one, KeyMsg '' '', KeyMsg ''a'', KeyMsg ''n''])) = [''me/a''] \<and>
   view (after [one, KeyMsg '' '', KeyMsg ''a'', KeyMsg ''n'']) = ViewList \<and>
   view (after [one, KeyMsg '' '', KeyMsg ''a'']) = ViewConfirmArchive \<and>
   map Selected (repos (after [one, KeyMsg ''a''])) = [True] \<and>
   map Selected (filteredRepos (after [one, KeyMsg ''a''])) = [False] \<and>
   map Selected (repos (after [one, KeyMsg '' '', KeyMsg ''D''])) = [False] \<and>
   map Selected (filteredRepos (after [one, KeyMsg '' '', KeyMsg ''D''])) = [False]"
  by code_simp


end
